theory Spec2Isabelle
  imports Complex_Main "HOL-Library.Sublist" "HOL-Library.Word"
begin

section \<open>Warehouse sparepart locator: the request handlers of server.js\<close>

text \<open>
  The development embeds the three API handlers of \<^verbatim>\<open>src/server.js\<close>
  (\<^verbatim>\<open>GET /api/search\<close>, \<^verbatim>\<open>GET /api/map\<close>, \<^verbatim>\<open>POST /api/admin/rack\<close>) together with
  \<^verbatim>\<open>loadDB\<close> and \<^verbatim>\<open>saveDB\<close>. JavaScript is dynamically typed, so the leaves of the data
  (the fields of items, of racks and of the request body) are JavaScript primitive values,
  and every place where the source would throw a \<^verbatim>\<open>TypeError\<close> is a branch of the model.

  Modelling decisions, each one visible in the definitions below:
  \<^item> a string is a list of UTF-16 code units, as in JavaScript; \<^verbatim>\<open>trim\<close>, \<^verbatim>\<open>includes\<close> and
    \<^verbatim>\<open>===\<close> are defined on code units;
  \<^item> the library functions whose tables are no part of the repository are parameters of
    the handlers: the case mapping behind \<^verbatim>\<open>toLowerCase\<close> (\<open>lower\<close>), the one behind
    \<^verbatim>\<open>toUpperCase\<close> (\<open>upper\<close>) and the conversion of a string by \<^verbatim>\<open>Number\<close> (\<open>num\<close>). Every
    property is proved for all values of these parameters, hence for JavaScript's own;
  \<^item> a number is \<^verbatim>\<open>NaN\<close>, one of the two infinities, or a finite value (a rational; the
    doubles are among them, and zero has no sign);
  \<^item> the database document is an object whose \<^verbatim>\<open>items\<close> and \<^verbatim>\<open>racks\<close> are absent (or
    falsy) or arrays of objects; fields of those objects are primitives, an absent field
    being \<^verbatim>\<open>undefined\<close>.
\<close>

subsection \<open>Strings\<close>

type_synonym jschar = "16 word"

type_synonym jsstring = "jschar list"

text \<open>A string literal of ASCII characters, as the code units it stands for.\<close>

definition lit :: "string \<Rightarrow> jsstring" where
  "lit s = map of_char s"

text \<open>
  The code units \<^verbatim>\<open>String.prototype.trim\<close> strips: the white space of ECMAScript (tab,
  vertical tab, form feed, the space separators of Unicode, the byte order mark) and its
  line terminators.
\<close>

definition is_ws :: "jschar \<Rightarrow> bool" where
  "is_ws c = (c = 0x0009 \<or> c = 0x000A \<or> c = 0x000B \<or> c = 0x000C \<or> c = 0x000D
              \<or> c = 0x0020 \<or> c = 0x00A0 \<or> c = 0x1680 \<or> (0x2000 \<le> c \<and> c \<le> 0x200A)
              \<or> c = 0x2028 \<or> c = 0x2029 \<or> c = 0x202F \<or> c = 0x205F \<or> c = 0x3000
              \<or> c = 0xFEFF)"

definition trim :: "jsstring \<Rightarrow> jsstring" where
  "trim s = rev (dropWhile is_ws (rev (dropWhile is_ws s)))"

text \<open>
  \<^verbatim>\<open>s.toLowerCase()\<close> and \<^verbatim>\<open>s.toUpperCase()\<close>. The Unicode case mapping of the characters
  is the parameter (\<open>lower\<close>, \<open>upper\<close>: any function on strings); the empty string has no
  character to map and is its own result.
\<close>

definition toLowerCase :: "(jsstring \<Rightarrow> jsstring) \<Rightarrow> jsstring \<Rightarrow> jsstring" where
  "toLowerCase lower s = (if s = [] then [] else lower s)"

definition toUpperCase :: "(jsstring \<Rightarrow> jsstring) \<Rightarrow> jsstring \<Rightarrow> jsstring" where
  "toUpperCase upper s = (if s = [] then [] else upper s)"

text \<open>\<^verbatim>\<open>s.startsWith(q)\<close> and \<^verbatim>\<open>s.includes(q)\<close>: \<open>q\<close> occurs at some position of \<open>s\<close>.\<close>

definition startsWith :: "jsstring \<Rightarrow> jsstring \<Rightarrow> bool" where
  "startsWith s q = (take (length q) s = q)"

fun str_includes :: "jsstring \<Rightarrow> jsstring \<Rightarrow> bool" where
  "str_includes [] q = (q = [])"
| "str_includes (c # s) q = (startsWith (c # s) q \<or> str_includes s q)"

subsection \<open>JavaScript primitive values\<close>

datatype jsnum = NaN | PosInfinity | NegInfinity | Finite rat

datatype jsval = JUndefined | JNull | JBool bool | JNum jsnum | JStr jsstring

text \<open>\<^verbatim>\<open>ToBoolean\<close>: what \<^verbatim>\<open>!v\<close> and \<^verbatim>\<open>v || d\<close> test.\<close>

fun truthy :: "jsval \<Rightarrow> bool" where
  "truthy JUndefined = False"
| "truthy JNull = False"
| "truthy (JBool b) = b"
| "truthy (JNum n) = (n \<noteq> NaN \<and> n \<noteq> Finite 0)"
| "truthy (JStr s) = (s \<noteq> [])"

text \<open>\<^verbatim>\<open>a === b\<close> on primitives: equal values of the same type, and \<^verbatim>\<open>NaN\<close> equals nothing.\<close>

definition strict_eq :: "jsval \<Rightarrow> jsval \<Rightarrow> bool" where
  "strict_eq a b = (a = b \<and> a \<noteq> JNum NaN)"

definition isNaN :: "jsnum \<Rightarrow> bool" where
  "isNaN n = (n = NaN)"

definition isFinite :: "jsnum \<Rightarrow> bool" where
  "isFinite n = (case n of Finite _ \<Rightarrow> True | _ \<Rightarrow> False)"

text \<open>
  \<^verbatim>\<open>Number(v)\<close> on a primitive value. What \<^verbatim>\<open>Number\<close> makes of a string (the grammar of
  numeric literals and the rounding to a double) is the parameter \<open>num\<close>.
\<close>

fun ToNumber :: "(jsstring \<Rightarrow> jsnum) \<Rightarrow> jsval \<Rightarrow> jsnum" where
  "ToNumber num JUndefined = NaN"
| "ToNumber num JNull = Finite 0"
| "ToNumber num (JBool b) = (if b then Finite 1 else Finite 0)"
| "ToNumber num (JNum n) = n"
| "ToNumber num (JStr s) = num s"

subsection \<open>The data model\<close>

text \<open>
  The objects of \<^verbatim>\<open>data/db.json\<close>. A field the document leaves out is \<open>JUndefined\<close>, and
  \<open>items\<close> or \<open>racks\<close> is \<open>None\<close> when the document has no such array (the property is
  absent or \<^verbatim>\<open>null\<close>).
\<close>

record item =
  item_id :: jsval
  item_name :: jsval
  item_code :: jsval
  item_rackId :: jsval

record rack =
  rack_id :: jsval
  rack_code :: jsval
  rack_x :: jsval
  rack_y :: jsval

record dataset =
  company :: jsval
  warehouse :: jsval
  items :: "item list option"
  racks :: "rack list option"

subsection \<open>Storage: loadDB and saveDB\<close>

text \<open>
  The file system as the handlers see it. \<open>disk\<close> is what \<^verbatim>\<open>JSON.parse\<close> makes of the
  file, \<open>None\<close> when the handlers' test \<^verbatim>\<open>!db\<close> succeeds: \<^verbatim>\<open>loadDB\<close> returns \<^verbatim>\<open>null\<close> (the
  file is missing, unreadable or malformed) or the document is a falsy value.
  \<open>writable\<close> says whether \<^verbatim>\<open>writeFileSync\<close> succeeds; a write that fails is taken to
  leave the file as it was. \<open>trace\<close> records every access, in order.
\<close>

datatype io = Load | Save

record world =
  disk :: "dataset option"
  writable :: bool
  trace :: "io list"

definition loadDB :: "world \<Rightarrow> dataset option \<times> world" where
  "loadDB w = (disk w, w\<lparr>trace := trace w @ [Load]\<rparr>)"

text \<open>
  \<^verbatim>\<open>JSON.stringify\<close> writes a number that is not finite as \<^verbatim>\<open>null\<close>, and leaves out a
  property whose value is \<^verbatim>\<open>undefined\<close>: the document read back is the one written,
  with these replacements.
\<close>

fun json_leaf :: "jsval \<Rightarrow> jsval" where
  "json_leaf (JNum n) = (if isFinite n then JNum n else JNull)"
| "json_leaf v = v"

definition json_item :: "item \<Rightarrow> item" where
  "json_item it = \<lparr>item_id = json_leaf (item_id it), item_name = json_leaf (item_name it),
                  item_code = json_leaf (item_code it), item_rackId = json_leaf (item_rackId it)\<rparr>"

definition json_rack :: "rack \<Rightarrow> rack" where
  "json_rack r = \<lparr>rack_id = json_leaf (rack_id r), rack_code = json_leaf (rack_code r),
                 rack_x = json_leaf (rack_x r), rack_y = json_leaf (rack_y r)\<rparr>"

definition json_dataset :: "dataset \<Rightarrow> dataset" where
  "json_dataset d = \<lparr>company = json_leaf (company d), warehouse = json_leaf (warehouse d),
                    items = map_option (map json_item) (items d),
                    racks = map_option (map json_rack) (racks d)\<rparr>"

definition saveDB :: "dataset \<Rightarrow> world \<Rightarrow> bool \<times> world" where
  "saveDB d w =
     (if writable w
      then (True, w\<lparr>disk := Some (json_dataset d), trace := trace w @ [Save]\<rparr>)
      else (False, w\<lparr>trace := trace w @ [Save]\<rparr>))"

subsection \<open>Responses\<close>

datatype error = TypeError

record search_result =
  res_id :: jsval
  res_name :: jsval
  res_code :: jsval
  res_rackId :: jsval
  res_rackCode :: jsval
  res_rackX :: jsval
  res_rackY :: jsval

text \<open>
  The bodies the handlers send: \<open>SearchEmpty results message\<close>,
  \<open>SearchHits query total results\<close>, \<open>MapInfo company warehouse mapFile racks\<close> and
  \<open>RackSaved message rack\<close> have \<^verbatim>\<open>ok: true\<close>; \<open>Failed message\<close> has \<^verbatim>\<open>ok: false\<close>.
  A reply holds the values handed to \<^verbatim>\<open>res.json\<close>. A handler ends in a response, or in
  the error it throws (\<open>Inl\<close>).
\<close>

datatype reply =
    SearchEmpty "search_result list" jsstring
  | SearchHits jsstring nat "search_result list"
  | MapInfo jsval jsval jsstring "rack list"
  | RackSaved jsstring rack
  | Failed jsstring

record response =
  status :: nat
  payload :: reply

subsection \<open>GET /api/search\<close>

text \<open>\<^verbatim>\<open>(req.query.q || "").trim().toLowerCase()\<close>, for a parameter that is absent or a string.\<close>

definition normalize_query :: "(jsstring \<Rightarrow> jsstring) \<Rightarrow> jsstring option \<Rightarrow> jsstring" where
  "normalize_query lower q = toLowerCase lower (trim (case q of None \<Rightarrow> [] | Some s \<Rightarrow> s))"

text \<open>\<^verbatim>\<open>(v || "").toLowerCase()\<close>: a truthy value that is no string has no such method.\<close>

definition lower_or_empty :: "(jsstring \<Rightarrow> jsstring) \<Rightarrow> jsval \<Rightarrow> error + jsstring" where
  "lower_or_empty lower v =
     (if \<not> truthy v then Inr (toLowerCase lower [])
      else (case v of JStr s \<Rightarrow> Inr (toLowerCase lower s) | _ \<Rightarrow> Inl TypeError))"

text \<open>The callback of \<^verbatim>\<open>filter\<close>: both fields are lower-cased before either is searched.\<close>

definition item_matches :: "(jsstring \<Rightarrow> jsstring) \<Rightarrow> jsstring \<Rightarrow> item \<Rightarrow> error + bool" where
  "item_matches lower q it =
     (case lower_or_empty lower (item_name it) of
        Inl e \<Rightarrow> Inl e
      | Inr name \<Rightarrow>
          (case lower_or_empty lower (item_code it) of
             Inl e \<Rightarrow> Inl e
           | Inr code \<Rightarrow> Inr (str_includes name q \<or> str_includes code q)))"

fun filter_items :: "(jsstring \<Rightarrow> jsstring) \<Rightarrow> jsstring \<Rightarrow> item list \<Rightarrow> error + item list" where
  "filter_items lower q [] = Inr []"
| "filter_items lower q (it # its) =
     (case item_matches lower q it of
        Inl e \<Rightarrow> Inl e
      | Inr b \<Rightarrow>
          (case filter_items lower q its of
             Inl e \<Rightarrow> Inl e
           | Inr ms \<Rightarrow> Inr (if b then it # ms else ms)))"

text \<open>The callback of \<^verbatim>\<open>map\<close>: \<^verbatim>\<open>racks.find((r) => r.id === it.rackId)\<close> and the record built.\<close>

definition find_rack :: "rack list \<Rightarrow> jsval \<Rightarrow> rack option" where
  "find_rack rs rid = List.find (\<lambda>r. strict_eq (rack_id r) rid) rs"

definition to_result :: "rack list \<Rightarrow> item \<Rightarrow> search_result" where
  "to_result rs it =
     (let rack = find_rack rs (item_rackId it) in
      \<lparr>res_id = item_id it, res_name = item_name it, res_code = item_code it,
       res_rackId = item_rackId it,
       res_rackCode = (case rack of Some r \<Rightarrow> rack_code r | None \<Rightarrow> JStr (lit ''-'')),
       res_rackX = (case rack of Some r \<Rightarrow> rack_x r | None \<Rightarrow> JNull),
       res_rackY = (case rack of Some r \<Rightarrow> rack_y r | None \<Rightarrow> JNull)\<rparr>)"

definition or_empty :: "'a list option \<Rightarrow> 'a list" where
  "or_empty xs = (case xs of None \<Rightarrow> [] | Some l \<Rightarrow> l)"

definition get_search ::
  "(jsstring \<Rightarrow> jsstring) \<Rightarrow> jsstring option \<Rightarrow> world \<Rightarrow> (error + response) \<times> world" where
  "get_search lower query w =
     (let q = normalize_query lower query in
      if q = [] then
        (Inr \<lparr>status = 200, payload = SearchEmpty [] (lit ''Query kosong'')\<rparr>, w)
      else
        (case loadDB w of
           (None, w') \<Rightarrow>
             (Inr \<lparr>status = 500, payload = Failed (lit ''DB tidak bisa dibaca'')\<rparr>, w')
         | (Some db, w') \<Rightarrow>
             (let its = or_empty (items db); rs = or_empty (racks db) in
              case filter_items lower q its of
                Inl e \<Rightarrow> (Inl e, w')
              | Inr ms \<Rightarrow>
                  (let results = map (to_result rs) ms in
                   (Inr \<lparr>status = 200, payload = SearchHits q (length results) results\<rparr>,
                    w')))))"

subsection \<open>GET /api/map\<close>

definition get_map :: "world \<Rightarrow> response \<times> world" where
  "get_map w =
     (case loadDB w of
        (None, w') \<Rightarrow> (\<lparr>status = 500, payload = Failed (lit ''DB tidak bisa dibaca'')\<rparr>, w')
      | (Some db, w') \<Rightarrow>
          (\<lparr>status = 200,
            payload = MapInfo (company db) (warehouse db) (lit ''/maps/warehouse.svg'')
                        (or_empty (racks db))\<rparr>, w'))"

subsection \<open>POST /api/admin/rack\<close>

record rack_body =
  body_code :: jsval
  body_x :: jsval
  body_y :: jsval

text \<open>\<^verbatim>\<open>(req.body.code || "").trim().toUpperCase()\<close>.\<close>

definition normalize_code :: "(jsstring \<Rightarrow> jsstring) \<Rightarrow> jsval \<Rightarrow> error + jsstring" where
  "normalize_code upper v =
     (if \<not> truthy v then Inr (toUpperCase upper (trim []))
      else (case v of JStr s \<Rightarrow> Inr (toUpperCase upper (trim s)) | _ \<Rightarrow> Inl TypeError))"

text \<open>
  \<^verbatim>\<open>find\<close> returns the first rack with \<^verbatim>\<open>r.code === code\<close>; the assignments to its \<^verbatim>\<open>x\<close>
  and \<^verbatim>\<open>y\<close> change that element of the array where it stands.
\<close>

definition has_code :: "jsstring \<Rightarrow> rack \<Rightarrow> bool" where
  "has_code code r = strict_eq (rack_code r) (JStr code)"

fun mutate_first :: "('a \<Rightarrow> bool) \<Rightarrow> ('a \<Rightarrow> 'a) \<Rightarrow> 'a list \<Rightarrow> 'a list" where
  "mutate_first P f [] = []"
| "mutate_first P f (a # as) = (if P a then f a # as else a # mutate_first P f as)"

definition set_coords :: "jsnum \<Rightarrow> jsnum \<Rightarrow> rack \<Rightarrow> rack" where
  "set_coords x y r = r\<lparr>rack_x := JNum x, rack_y := JNum y\<rparr>"

definition new_rack :: "jsstring \<Rightarrow> jsnum \<Rightarrow> jsnum \<Rightarrow> rack" where
  "new_rack code x y =
     \<lparr>rack_id = JStr (lit ''R-'' @ code), rack_code = JStr code,
      rack_x = JNum x, rack_y = JNum y\<rparr>"

definition upsert :: "jsstring \<Rightarrow> jsnum \<Rightarrow> jsnum \<Rightarrow> rack list \<Rightarrow> rack list \<times> rack" where
  "upsert code x y rs =
     (case List.find (has_code code) rs of
        None \<Rightarrow> (let rack = new_rack code x y in (rs @ [rack], rack))
      | Some r \<Rightarrow> (mutate_first (has_code code) (set_coords x y) rs, set_coords x y r))"

text \<open>Lines 173 to 191: the dataset after the find-or-create, and the rack sent back.\<close>

definition upsert_dataset :: "jsstring \<Rightarrow> jsnum \<Rightarrow> jsnum \<Rightarrow> dataset \<Rightarrow> dataset \<times> rack" where
  "upsert_dataset code x y db =
     (let (rs, rack) = upsert code x y (or_empty (racks db)) in (db\<lparr>racks := Some rs\<rparr>, rack))"

definition invalid_input :: "jsstring \<Rightarrow> jsnum \<Rightarrow> jsnum \<Rightarrow> bool" where
  "invalid_input code x y = (code = [] \<or> isNaN x \<or> isNaN y)"

definition post_admin_rack ::
  "(jsstring \<Rightarrow> jsstring) \<Rightarrow> (jsstring \<Rightarrow> jsnum) \<Rightarrow> rack_body \<Rightarrow> world
   \<Rightarrow> (error + response) \<times> world" where
  "post_admin_rack upper num body w =
     (case normalize_code upper (body_code body) of
        Inl e \<Rightarrow> (Inl e, w)
      | Inr code \<Rightarrow>
          (let x = ToNumber num (body_x body); y = ToNumber num (body_y body) in
           if invalid_input code x y then
             (Inr \<lparr>status = 400,
                   payload = Failed (lit ''Data tidak valid. Pastikan code, x, y ada.'')\<rparr>, w)
           else
             (case loadDB w of
                (None, w1) \<Rightarrow>
                  (Inr \<lparr>status = 500, payload = Failed (lit ''DB tidak bisa dibaca'')\<rparr>, w1)
              | (Some db, w1) \<Rightarrow>
                  (let (db', rack) = upsert_dataset code x y db
                   in case saveDB db' w1 of
                        (False, w2) \<Rightarrow>
                          (Inr \<lparr>status = 500, payload = Failed (lit ''Gagal menyimpan DB'')\<rparr>, w2)
                      | (True, w2) \<Rightarrow>
                          (Inr \<lparr>status = 200,
                                payload = RackSaved
                                  (lit ''Rack '' @ code @ lit '' berhasil disimpan'') rack\<rparr>,
                           w2)))))"

subsection \<open>Notions the properties are stated with\<close>

text \<open>
  The lower-cased text of a field as the search compares it: the lower-cased empty string
  for a field that is absent or falsy. A field the search can lower-case is a string or
  falsy; a truthy value of another type (a number, \<^verbatim>\<open>true\<close>) makes \<^verbatim>\<open>toLowerCase\<close> throw.
\<close>

definition lowered :: "(jsstring \<Rightarrow> jsstring) \<Rightarrow> jsval \<Rightarrow> jsstring" where
  "lowered lower v = (case v of JStr s \<Rightarrow> toLowerCase lower s | _ \<Rightarrow> [])"

definition string_or_falsy :: "jsval \<Rightarrow> bool" where
  "string_or_falsy v = (case v of JStr s \<Rightarrow> True | _ \<Rightarrow> \<not> truthy v)"

definition well_typed_item :: "item \<Rightarrow> bool" where
  "well_typed_item it = (string_or_falsy (item_name it) \<and> string_or_falsy (item_code it))"

text \<open>
  The matching rule in the words of the specification: the query is a substring
  (\<^const>\<open>sublist\<close>) of the lower-cased name or of the lower-cased code.
\<close>

definition matches :: "(jsstring \<Rightarrow> jsstring) \<Rightarrow> jsstring \<Rightarrow> item \<Rightarrow> bool" where
  "matches lower q it =
     (sublist q (lowered lower (item_name it)) \<or> sublist q (lowered lower (item_code it)))"


subsection \<open>Examples\<close>

text \<open>
  The case mapping of the ASCII letters, which is what JavaScript's case mapping does on
  a string of ASCII characters. They stand for the parameters \<open>lower\<close> and \<open>upper\<close> only
  where a property is tried on an example, and the examples are such strings.
\<close>

definition ascii_lower :: "jsstring \<Rightarrow> jsstring" where
  "ascii_lower s = map (\<lambda>c. if 0x41 \<le> c \<and> c \<le> 0x5A then c + 0x20 else c) s"

definition ascii_upper :: "jsstring \<Rightarrow> jsstring" where
  "ascii_upper s = map (\<lambda>c. if 0x61 \<le> c \<and> c \<le> 0x7A then c - 0x20 else c) s"

text \<open>The dataset of the end-to-end example, on a healthy disk.\<close>

definition spec_db :: dataset where
  "spec_db = \<lparr>company = JUndefined, warehouse = JUndefined,
     items = Some [\<lparr>item_id = JStr (lit ''I1''), item_name = JStr (lit ''Bolt M6''),
                     item_code = JStr (lit ''BLT6''), item_rackId = JStr (lit ''R-A01'')\<rparr>],
     racks = Some [\<lparr>rack_id = JStr (lit ''R-A01''), rack_code = JStr (lit ''A01''),
                     rack_x = JNum (Finite 10), rack_y = JNum (Finite 20)\<rparr>]\<rparr>"

definition spec_world :: world where
  "spec_world = \<lparr>disk = Some spec_db, writable = True, trace = []\<rparr>"

text \<open>
  Two more datasets: one whose items point to no rack (an unknown id, and \<^verbatim>\<open>null\<close>), and one
  with no \<^verbatim>\<open>racks\<close> array and an item that has neither name nor rack.
\<close>

definition dangling_db :: dataset where
  "dangling_db = spec_db\<lparr>items :=
     Some [\<lparr>item_id = JStr (lit ''I1''), item_name = JStr (lit ''Bolt M6''),
             item_code = JStr (lit ''BLT6''), item_rackId = JStr (lit ''R-999'')\<rparr>,
           \<lparr>item_id = JStr (lit ''I2''), item_name = JStr (lit ''Bolt M8''),
             item_code = JStr (lit ''BLT8''), item_rackId = JNull\<rparr>]\<rparr>"

definition partial_db :: dataset where
  "partial_db = \<lparr>company = JUndefined, warehouse = JUndefined,
     items = Some [\<lparr>item_id = JStr (lit ''I3''), item_name = JUndefined,
                     item_code = JStr (lit ''NUT8''), item_rackId = JUndefined\<rparr>],
     racks = None\<rparr>"

text \<open>Request bodies and datasets the properties below are tried on.\<close>

definition infinity_body :: rack_body where
  "infinity_body =
     \<lparr>body_code = JStr (lit ''A01''), body_x = JNum PosInfinity, body_y = JNum (Finite 1)\<rparr>"

definition missing_y_body :: rack_body where
  "missing_y_body =
     \<lparr>body_code = JStr (lit ''B02''), body_x = JNum (Finite 5), body_y = JUndefined\<rparr>"

definition b02_body :: rack_body where
  "b02_body = \<lparr>body_code = JStr (lit ''B02''), body_x = JNum (Finite 5), body_y = JNum (Finite 5)\<rparr>"

definition a01_body :: rack_body where
  "a01_body = \<lparr>body_code = JStr (lit ''a01''), body_x = JNum (Finite 99), body_y = JNum (Finite 5)\<rparr>"

definition lowercase_db :: dataset where
  "lowercase_db = spec_db\<lparr>racks :=
     Some [\<lparr>rack_id = JStr (lit ''R-a01''), rack_code = JStr (lit ''a01''),
             rack_x = JNum (Finite 10), rack_y = JNum (Finite 20)\<rparr>]\<rparr>"

definition duplicate_db :: dataset where
  "duplicate_db = spec_db\<lparr>racks :=
     Some [\<lparr>rack_id = JStr (lit ''R-A01''), rack_code = JStr (lit ''A01''),
             rack_x = JNum (Finite 10), rack_y = JNum (Finite 20)\<rparr>,
           \<lparr>rack_id = JStr (lit ''R-A01b''), rack_code = JStr (lit ''A01''),
             rack_x = JNum (Finite 30), rack_y = JNum (Finite 40)\<rparr>]\<rparr>"

section \<open>Properties\<close>

subsection \<open>Strings\<close>

lemma dropWhile_all: "list_all P s \<Longrightarrow> dropWhile P s = []"
  by (induction s) auto

lemma trim_all_ws: "list_all is_ws s \<Longrightarrow> trim s = []"
  by (simp add: trim_def dropWhile_all)

lemma startsWith_prefix: "startsWith s q = prefix q s"
  unfolding startsWith_def prefix_def
  by (metis append_eq_conv_conj append_take_drop_id)

lemma str_includes_sublist: "str_includes s q = sublist q s"
proof (induction s)
  case Nil
  show ?case by simp
next
  case (Cons c s)
  then show ?case by (simp add: startsWith_prefix sublist_Cons_right)
qed

subsection \<open>The filter of the search\<close>

lemma lower_or_empty_typed: "string_or_falsy v \<Longrightarrow> lower_or_empty lower v = Inr (lowered lower v)"
  by (cases v) (auto simp: string_or_falsy_def lower_or_empty_def lowered_def toLowerCase_def)

lemma lower_or_empty_untyped: "\<not> string_or_falsy v \<Longrightarrow> lower_or_empty lower v = Inl TypeError"
  by (cases v) (auto simp: string_or_falsy_def lower_or_empty_def)

lemma item_matches_typed: "well_typed_item it \<Longrightarrow> item_matches lower q it = Inr (matches lower q it)"
  by (simp add: well_typed_item_def item_matches_def lower_or_empty_typed matches_def
      str_includes_sublist)

lemma item_matches_untyped: "\<not> well_typed_item it \<Longrightarrow> item_matches lower q it = Inl TypeError"
proof (cases "string_or_falsy (item_name it)")
  case True
  moreover assume "\<not> well_typed_item it"
  ultimately have "\<not> string_or_falsy (item_code it)" by (simp add: well_typed_item_def)
  with True show ?thesis
    by (simp add: item_matches_def lower_or_empty_typed lower_or_empty_untyped)
next
  case False
  then show ?thesis by (simp add: item_matches_def lower_or_empty_untyped)
qed

lemma filter_items_typed:
  "list_all well_typed_item its \<Longrightarrow> filter_items lower q its = Inr (filter (matches lower q) its)"
  by (induction its) (simp_all add: item_matches_typed)

lemma filter_items_untyped:
  "\<not> list_all well_typed_item its \<Longrightarrow> filter_items lower q its = Inl TypeError"
proof (induction its)
  case Nil
  then show ?case by simp
next
  case (Cons it its)
  show ?case
  proof (cases "well_typed_item it")
    case True
    with Cons show ?thesis by (simp add: item_matches_typed)
  next
    case False
    then show ?thesis by (simp add: item_matches_untyped)
  qed
qed

subsection \<open>The four outcomes of a search\<close>

lemma get_search_empty:
  "normalize_query lower query = [] \<Longrightarrow>
   get_search lower query w = (Inr \<lparr>status = 200, payload = SearchEmpty [] (lit ''Query kosong'')\<rparr>, w)"
  by (simp add: get_search_def)

lemma get_search_unreadable:
  "normalize_query lower query \<noteq> [] \<Longrightarrow> disk w = None \<Longrightarrow>
   get_search lower query w =
     (Inr \<lparr>status = 500, payload = Failed (lit ''DB tidak bisa dibaca'')\<rparr>,
      w\<lparr>trace := trace w @ [Load]\<rparr>)"
  by (simp add: get_search_def loadDB_def)

lemma get_search_typed:
  assumes "normalize_query lower query = q" "q \<noteq> []" "disk w = Some db"
    "list_all well_typed_item (or_empty (items db))"
  shows "get_search lower query w =
     (Inr \<lparr>status = 200,
           payload = SearchHits q (length (filter (matches lower q) (or_empty (items db))))
                       (map (to_result (or_empty (racks db)))
                          (filter (matches lower q) (or_empty (items db))))\<rparr>,
      w\<lparr>trace := trace w @ [Load]\<rparr>)"
  using assms by (simp add: get_search_def loadDB_def filter_items_typed)

lemma get_search_untyped:
  assumes "normalize_query lower query \<noteq> []" "disk w = Some db"
    "\<not> list_all well_typed_item (or_empty (items db))"
  shows "get_search lower query w = (Inl TypeError, w\<lparr>trace := trace w @ [Load]\<rparr>)"
  using assms by (simp add: get_search_def loadDB_def filter_items_untyped)

lemma get_search_world:
  "snd (get_search lower query w) = w \<or> snd (get_search lower query w) = w\<lparr>trace := trace w @ [Load]\<rparr>"
proof (cases "normalize_query lower query = []")
  case True
  then show ?thesis by (simp add: get_search_empty)
next
  case q: False
  show ?thesis
  proof (cases "disk w")
    case None
    with q show ?thesis by (simp add: get_search_unreadable)
  next
    case (Some db)
    with q show ?thesis
      by (cases "list_all well_typed_item (or_empty (items db))")
        (simp_all add: get_search_typed get_search_untyped)
  qed
qed

lemma get_map_world: "snd (get_map w) = w\<lparr>trace := trace w @ [Load]\<rparr>"
  by (simp add: get_map_def loadDB_def split: option.splits)

subsection \<open>The empty query\<close>

text \<open>
  C7. A query that is absent, empty or made of white space only (the code units that
  \<^verbatim>\<open>trim\<close> strips, \<^const>\<open>is_ws\<close>) is answered with status 200, no results and the message
  \<^verbatim>\<open>Query kosong\<close>, whatever the disk holds (readable or not) and whatever the case
  mapping. The world comes back as it was: no load is recorded in the trace, so no
  storage error can arise.
\<close>

theorem search_empty_query:
  assumes "list_all is_ws s"
  shows "get_search lower (Some s) w =
           (Inr \<lparr>status = 200, payload = SearchEmpty [] (lit ''Query kosong'')\<rparr>, w)
       \<and> get_search lower None w =
           (Inr \<lparr>status = 200, payload = SearchEmpty [] (lit ''Query kosong'')\<rparr>, w)"
proof -
  have "normalize_query lower (Some s) = []"
    using assms by (simp add: normalize_query_def trim_all_ws toLowerCase_def)
  moreover have "normalize_query lower None = []"
    by (simp add: normalize_query_def trim_def toLowerCase_def)
  ultimately show ?thesis by (simp add: get_search_empty)
qed

theorem search_empty_query_witness:
  "list_all is_ws [0x0020, 0x00A0, 0x3000]
   \<and> get_search ascii_lower (Some [0x0020, 0x00A0, 0x3000]) \<lparr>disk = None, writable = False, trace = []\<rparr> =
       (Inr \<lparr>status = 200, payload = SearchEmpty [] (lit ''Query kosong'')\<rparr>,
        \<lparr>disk = None, writable = False, trace = []\<rparr>)"
proof -
  have h: "list_all is_ws [0x0020, 0x00A0, 0x3000]" by (simp add: is_ws_def)
  from search_empty_query [OF h] h show ?thesis by blast
qed

subsection \<open>The read-only handlers\<close>

text \<open>
  C10. A search hands the world back either untouched (the empty query) or with one
  \<open>Load\<close> added to the trace; the map request always adds exactly one \<open>Load\<close>. Neither
  records a \<open>Save\<close>, and the disk is the same before and after. The rack upsert is the
  handler that writes: on the example world a request exists that records a \<open>Save\<close> and
  changes the disk.
\<close>

theorem read_only_handlers:
  "(snd (get_search lower query w) = w \<or> snd (get_search lower query w) = w\<lparr>trace := trace w @ [Load]\<rparr>)
   \<and> snd (get_map w) = w\<lparr>trace := trace w @ [Load]\<rparr>
   \<and> disk (snd (get_search lower query w)) = disk w
   \<and> disk (snd (get_map w)) = disk w
   \<and> (\<exists>body. Save \<in> set (trace (snd (post_admin_rack ascii_upper num body spec_world)))
            \<and> disk (snd (post_admin_rack ascii_upper num body spec_world)) \<noteq> disk spec_world)"
proof -
  have s: "snd (get_search lower query w) = w \<or> snd (get_search lower query w) = w\<lparr>trace := trace w @ [Load]\<rparr>"
    by (rule get_search_world)
  then have ds: "disk (snd (get_search lower query w)) = disk w"
    by (elim disjE) simp_all
  have m: "snd (get_map w) = w\<lparr>trace := trace w @ [Load]\<rparr>"
    by (rule get_map_world)
  then have dm: "disk (snd (get_map w)) = disk w" by simp
  let ?b = "\<lparr>body_code = JStr (lit ''B02''), body_x = JNum (Finite 5), body_y = JNum (Finite 5)\<rparr>"
  have p1: "Save \<in> set (trace (snd (post_admin_rack ascii_upper num ?b spec_world)))" by code_simp
  have p2: "disk (snd (post_admin_rack ascii_upper num ?b spec_world)) \<noteq> disk spec_world" by code_simp
  from s m ds dm p1 p2 show ?thesis by blast
qed

subsection \<open>Soundness and completeness of the filter\<close>

text \<open>
  C3. On a readable dataset whose item names and codes are strings (or absent), a query
  that is not empty after trimming and lower-casing is answered with status 200, the
  normalized query, and exactly the items that satisfy \<^const>\<open>matches\<close> (the query is a
  substring of the lower-cased name or of the lower-cased code), each joined to its rack,
  in the order of the dataset; the total is the number of these results.
\<close>

theorem search_sound_complete:
  assumes "disk w = Some db" and "normalize_query lower query = q" and "q \<noteq> []"
    and "list_all well_typed_item (or_empty (items db))"
  shows "fst (get_search lower query w) =
           Inr \<lparr>status = 200,
                payload = SearchHits q (length (filter (matches lower q) (or_empty (items db))))
                            (map (to_result (or_empty (racks db)))
                               (filter (matches lower q) (or_empty (items db))))\<rparr>"
  using get_search_typed [OF assms(2,3,1,4)] by simp

theorem search_sound_complete_witness:
  "fst (get_search ascii_lower (Some (lit '' M6 '')) spec_world) =
     Inr \<lparr>status = 200,
          payload = SearchHits (lit ''m6'') 1
            [\<lparr>res_id = JStr (lit ''I1''), res_name = JStr (lit ''Bolt M6''), res_code = JStr (lit ''BLT6''),
              res_rackId = JStr (lit ''R-A01''), res_rackCode = JStr (lit ''A01''),
              res_rackX = JNum (Finite 10), res_rackY = JNum (Finite 20)\<rparr>]\<rparr>"
proof -
  have h1: "disk spec_world = Some spec_db" by (simp add: spec_world_def)
  have h2: "normalize_query ascii_lower (Some (lit '' M6 '')) = (lit ''m6'')" by code_simp
  have h3: "(lit ''m6'') \<noteq> []" by (simp add: lit_def)
  have h4: "list_all well_typed_item (or_empty (items spec_db))" by code_simp
  have f: "filter (matches ascii_lower (lit ''m6'')) (or_empty (items spec_db)) = or_empty (items spec_db)"
    by code_simp
  have r: "map (to_result (or_empty (racks spec_db))) (or_empty (items spec_db)) =
      [\<lparr>res_id = JStr (lit ''I1''), res_name = JStr (lit ''Bolt M6''), res_code = JStr (lit ''BLT6''),
              res_rackId = JStr (lit ''R-A01''), res_rackCode = JStr (lit ''A01''),
              res_rackX = JNum (Finite 10), res_rackY = JNum (Finite 20)\<rparr>]"
    by code_simp
  have l: "length (or_empty (items spec_db)) = 1" by code_simp
  from search_sound_complete [OF h1 h2 h3 h4] show ?thesis
    by (simp only: f r l)
qed

subsection \<open>Dangling rack references\<close>

lemma find_rack_none:
  "\<forall>r \<in> set rs. \<not> strict_eq (rack_id r) rid \<Longrightarrow> find_rack rs rid = None"
  by (simp add: find_rack_def find_None_iff)

lemma to_result_dangling:
  assumes "\<forall>r \<in> set rs. \<not> strict_eq (rack_id r) (item_rackId it)"
  shows "to_result rs it =
     \<lparr>res_id = item_id it, res_name = item_name it, res_code = item_code it,
      res_rackId = item_rackId it, res_rackCode = JStr (lit ''-''), res_rackX = JNull,
      res_rackY = JNull\<rparr>"
  by (simp add: to_result_def find_rack_none [OF assms])

text \<open>
  C6. A matching item whose \<^verbatim>\<open>rackId\<close> is strictly equal to no rack's \<^verbatim>\<open>id\<close> (an unknown
  id, or \<^verbatim>\<open>null\<close>) is in the results of the search, with rack code \<^verbatim>\<open>"-"\<close> and \<^verbatim>\<open>null\<close>
  coordinates; the search answers with status 200.
\<close>

theorem search_dangling_rack:
  assumes "disk w = Some db" and "normalize_query lower query = q" and "q \<noteq> []"
    and "list_all well_typed_item (or_empty (items db))"
    and "it \<in> set (or_empty (items db))" and "matches lower q it"
    and "\<forall>r \<in> set (or_empty (racks db)). \<not> strict_eq (rack_id r) (item_rackId it)"
  shows "\<exists>total results.
           fst (get_search lower query w) =
             Inr \<lparr>status = 200, payload = SearchHits q total results\<rparr>
         \<and> \<lparr>res_id = item_id it, res_name = item_name it, res_code = item_code it,
             res_rackId = item_rackId it, res_rackCode = JStr (lit ''-''), res_rackX = JNull,
             res_rackY = JNull\<rparr> \<in> set results"
proof -
  let ?ms = "filter (matches lower q) (or_empty (items db))"
  let ?results = "map (to_result (or_empty (racks db))) ?ms"
  have "fst (get_search lower query w) =
          Inr \<lparr>status = 200, payload = SearchHits q (length ?ms) ?results\<rparr>"
    using get_search_typed [OF assms(2,3,1,4)] by simp
  moreover have "it \<in> set ?ms" using assms(5,6) by simp
  then have "to_result (or_empty (racks db)) it \<in> set ?results" by simp
  ultimately show ?thesis using to_result_dangling [OF assms(7)] by metis
qed

theorem search_dangling_rack_witness:
  "\<exists>total results.
     fst (get_search ascii_lower (Some (lit ''bolt'')) \<lparr>disk = Some dangling_db, writable = True, trace = []\<rparr>) =
       Inr \<lparr>status = 200, payload = SearchHits (lit ''bolt'') total results\<rparr>
   \<and> \<lparr>res_id = JStr (lit ''I1''), res_name = JStr (lit ''Bolt M6''), res_code = JStr (lit ''BLT6''),
       res_rackId = JStr (lit ''R-999''), res_rackCode = JStr (lit ''-''), res_rackX = JNull,
       res_rackY = JNull\<rparr> \<in> set results"
proof -
  let ?w = "\<lparr>disk = Some dangling_db, writable = True, trace = []\<rparr>"
  let ?it = "\<lparr>item_id = JStr (lit ''I1''), item_name = JStr (lit ''Bolt M6''),
             item_code = JStr (lit ''BLT6''), item_rackId = JStr (lit ''R-999'')\<rparr>"
  have h1: "disk ?w = Some dangling_db" by simp
  have h2: "normalize_query ascii_lower (Some (lit ''bolt'')) = (lit ''bolt'')" by code_simp
  have h3: "(lit ''bolt'') \<noteq> []" by (simp add: lit_def)
  have h4: "list_all well_typed_item (or_empty (items dangling_db))" by code_simp
  have h5: "?it \<in> set (or_empty (items dangling_db))" by code_simp
  have h6: "matches ascii_lower (lit ''bolt'') ?it" by code_simp
  have h7: "\<forall>r \<in> set (or_empty (racks dangling_db)). \<not> strict_eq (rack_id r) (item_rackId ?it)"
    by code_simp
  from search_dangling_rack [OF h1 h2 h3 h4 h5 h6 h7] show ?thesis by simp
qed

subsection \<open>Missing arrays and missing fields\<close>

text \<open>
  C9. A dataset without \<^verbatim>\<open>items\<close> (or without \<^verbatim>\<open>racks\<close>) is searched like one where that
  array is empty; an item without a name (or without a code) is matched like one whose
  name (or code) is the empty string, so the other field can still match; and a search of
  a readable dataset whose names and codes are strings or absent never throws: it ends
  in a response.
\<close>

theorem search_missing_fields:
  "fst (get_search lower query (w\<lparr>disk := Some (db\<lparr>items := None\<rparr>)\<rparr>)) =
     fst (get_search lower query (w\<lparr>disk := Some (db\<lparr>items := Some []\<rparr>)\<rparr>))
   \<and> fst (get_search lower query (w\<lparr>disk := Some (db\<lparr>racks := None\<rparr>)\<rparr>)) =
     fst (get_search lower query (w\<lparr>disk := Some (db\<lparr>racks := Some []\<rparr>)\<rparr>))
   \<and> item_matches lower q (it\<lparr>item_name := JUndefined\<rparr>) = item_matches lower q (it\<lparr>item_name := JStr []\<rparr>)
   \<and> item_matches lower q (it\<lparr>item_code := JUndefined\<rparr>) = item_matches lower q (it\<lparr>item_code := JStr []\<rparr>)
   \<and> (disk w = Some db \<and> list_all well_typed_item (or_empty (items db))
        \<longrightarrow> (\<exists>resp. fst (get_search lower query w) = Inr resp))"
proof -
  have a: "fst (get_search lower query (w\<lparr>disk := Some (db\<lparr>items := None\<rparr>)\<rparr>)) =
     fst (get_search lower query (w\<lparr>disk := Some (db\<lparr>items := Some []\<rparr>)\<rparr>))"
    by (simp add: get_search_def loadDB_def or_empty_def Let_def split: sum.splits)
  have b: "fst (get_search lower query (w\<lparr>disk := Some (db\<lparr>racks := None\<rparr>)\<rparr>)) =
     fst (get_search lower query (w\<lparr>disk := Some (db\<lparr>racks := Some []\<rparr>)\<rparr>))"
    by (simp add: get_search_def loadDB_def or_empty_def Let_def split: sum.splits)
  have u: "lower_or_empty lower JUndefined = Inr []" "lower_or_empty lower (JStr []) = Inr []"
    by (simp_all add: lower_or_empty_def toLowerCase_def)
  have c: "item_matches lower q (it\<lparr>item_name := JUndefined\<rparr>) = item_matches lower q (it\<lparr>item_name := JStr []\<rparr>)"
    by (simp add: item_matches_def u cong: sum.case_cong)
  have d: "item_matches lower q (it\<lparr>item_code := JUndefined\<rparr>) = item_matches lower q (it\<lparr>item_code := JStr []\<rparr>)"
    by (simp add: item_matches_def u cong: sum.case_cong)
  have e: "\<exists>resp. fst (get_search lower query w) = Inr resp"
    if "disk w = Some db" and "list_all well_typed_item (or_empty (items db))"
  proof (cases "normalize_query lower query = []")
    case True
    then show ?thesis by (simp add: get_search_empty)
  next
    case False
    then show ?thesis using get_search_typed [OF refl False that] by simp
  qed
  from a b c d e show ?thesis by blast
qed

theorem search_missing_fields_witness:
  "fst (get_search ascii_lower (Some (lit ''nut'')) \<lparr>disk = Some partial_db, writable = True, trace = []\<rparr>) =
     Inr \<lparr>status = 200, payload = SearchHits (lit ''nut'') 1
       [\<lparr>res_id = JStr (lit ''I3''), res_name = JUndefined, res_code = JStr (lit ''NUT8''),
         res_rackId = JUndefined, res_rackCode = JStr (lit ''-''), res_rackX = JNull,
         res_rackY = JNull\<rparr>]\<rparr>"
proof -
  let ?w = "\<lparr>disk = Some partial_db, writable = True, trace = []\<rparr>"
  have h1: "disk ?w = Some partial_db" by simp
  have h2: "list_all well_typed_item (or_empty (items partial_db))" by code_simp
  from search_missing_fields [where query = "Some (lit ''nut'')" and w = ?w and db = partial_db, THEN conjunct2, THEN conjunct2,
      THEN conjunct2, THEN conjunct2] h1 h2
  obtain resp where "fst (get_search ascii_lower (Some (lit ''nut'')) ?w) = Inr resp" by blast
  moreover have "fst (get_search ascii_lower (Some (lit ''nut'')) ?w) =
     Inr \<lparr>status = 200, payload = SearchHits (lit ''nut'') 1
       [\<lparr>res_id = JStr (lit ''I3''), res_name = JUndefined, res_code = JStr (lit ''NUT8''),
         res_rackId = JUndefined, res_rackCode = JStr (lit ''-''), res_rackX = JNull,
         res_rackY = JNull\<rparr>]\<rparr>" by code_simp
  ultimately show ?thesis by simp
qed

subsection \<open>The outcomes of a rack upsert\<close>

lemma has_code_iff: "has_code c r = (rack_code r = JStr c)"
  by (auto simp: has_code_def strict_eq_def)

lemma post_admin_rack_throws:
  "normalize_code upper (body_code b) = Inl e \<Longrightarrow> post_admin_rack upper num b w = (Inl e, w)"
  by (simp add: post_admin_rack_def)

lemma post_admin_rack_invalid:
  "normalize_code upper (body_code b) = Inr c \<Longrightarrow>
   invalid_input c (ToNumber num (body_x b)) (ToNumber num (body_y b)) \<Longrightarrow>
   post_admin_rack upper num b w =
     (Inr \<lparr>status = 400, payload = Failed (lit ''Data tidak valid. Pastikan code, x, y ada.'')\<rparr>, w)"
  by (simp add: post_admin_rack_def)

lemma post_admin_rack_unreadable:
  "normalize_code upper (body_code b) = Inr c \<Longrightarrow>
   \<not> invalid_input c (ToNumber num (body_x b)) (ToNumber num (body_y b)) \<Longrightarrow>
   disk w = None \<Longrightarrow>
   post_admin_rack upper num b w =
     (Inr \<lparr>status = 500, payload = Failed (lit ''DB tidak bisa dibaca'')\<rparr>,
      w\<lparr>trace := trace w @ [Load]\<rparr>)"
  by (simp add: post_admin_rack_def loadDB_def)

lemma post_admin_rack_write_failed:
  "normalize_code upper (body_code b) = Inr c \<Longrightarrow>
   \<not> invalid_input c (ToNumber num (body_x b)) (ToNumber num (body_y b)) \<Longrightarrow>
   disk w = Some db \<Longrightarrow> \<not> writable w \<Longrightarrow>
   post_admin_rack upper num b w =
     (Inr \<lparr>status = 500, payload = Failed (lit ''Gagal menyimpan DB'')\<rparr>,
      w\<lparr>trace := trace w @ [Load, Save]\<rparr>)"
  by (simp add: post_admin_rack_def loadDB_def saveDB_def split: prod.splits)

lemma post_admin_rack_saved:
  "normalize_code upper (body_code b) = Inr c \<Longrightarrow>
   \<not> invalid_input c (ToNumber num (body_x b)) (ToNumber num (body_y b)) \<Longrightarrow>
   disk w = Some db \<Longrightarrow> writable w \<Longrightarrow>
   post_admin_rack upper num b w =
     (Inr \<lparr>status = 200,
           payload = RackSaved ((lit ''Rack '') @ c @ (lit '' berhasil disimpan''))
                       (snd (upsert_dataset c (ToNumber num (body_x b)) (ToNumber num (body_y b)) db))\<rparr>,
      w\<lparr>disk := Some (json_dataset
                        (fst (upsert_dataset c (ToNumber num (body_x b)) (ToNumber num (body_y b)) db))),
        trace := trace w @ [Load, Save]\<rparr>)"
  by (simp add: post_admin_rack_def loadDB_def saveDB_def split: prod.splits)

lemma find_first_index:
  assumes "i < length rs" and "P (rs ! i)" and "\<forall>j<i. \<not> P (rs ! j)"
  shows "List.find P rs = Some (rs ! i)"
  using assms by (auto simp: find_Some_iff)

lemma mutate_first_index:
  assumes "i < length rs" and "P (rs ! i)" and "\<forall>j<i. \<not> P (rs ! j)"
  shows "mutate_first P f rs = rs[i := f (rs ! i)]"
  using assms
proof (induction rs arbitrary: i)
  case Nil
  then show ?case by simp
next
  case (Cons a rs)
  show ?case
  proof (cases i)
    case 0
    with Cons.prems show ?thesis by simp
  next
    case (Suc k)
    with Cons.prems have na: "\<not> P a" by auto
    from Suc Cons.prems have "k < length rs" "P (rs ! k)" "\<forall>j<k. \<not> P (rs ! j)" by auto
    from Cons.IH [OF this] na Suc show ?thesis by simp
  qed
qed

lemma upsert_found:
  assumes "i < length rs" and "rack_code (rs ! i) = JStr c"
    and "\<forall>j<i. rack_code (rs ! j) \<noteq> JStr c"
  shows "upsert c x y rs = (rs[i := set_coords x y (rs ! i)], set_coords x y (rs ! i))"
proof -
  have a: "has_code c (rs ! i)" using assms(2) by (simp add: has_code_iff)
  have b: "\<forall>j<i. \<not> has_code c (rs ! j)" using assms(3) by (simp add: has_code_iff)
  show ?thesis
    by (simp add: upsert_def find_first_index [OF assms(1) a b]
        mutate_first_index [OF assms(1) a b])
qed

lemma upsert_new:
  assumes "\<forall>r \<in> set rs. rack_code r \<noteq> JStr c"
  shows "upsert c x y rs = (rs @ [new_rack c x y], new_rack c x y)"
proof -
  have "List.find (has_code c) rs = None"
    using assms by (simp add: find_None_iff has_code_iff)
  then show ?thesis by (simp add: upsert_def Let_def)
qed

lemma json_leaf_idem: "json_leaf (json_leaf v) = json_leaf v"
  by (cases v) (auto simp: isFinite_def)

lemma json_leaf_str: "json_leaf v = JStr c \<longleftrightarrow> v = JStr c"
  by (cases v) (auto simp: isFinite_def)

lemma json_leaf_finite: "isFinite n \<Longrightarrow> json_leaf (JNum n) = JNum n"
  by simp

lemma json_rack_idem: "json_rack (json_rack r) = json_rack r"
  by (simp add: json_rack_def json_leaf_idem)

lemma has_code_json_rack: "has_code c (json_rack r) = has_code c r"
  by (simp add: has_code_iff json_rack_def json_leaf_str)


lemma upsert_dataset_found:
  assumes "or_empty (racks db) = rs" and "i < length rs" and "rack_code (rs ! i) = JStr c"
    and "\<forall>j<i. rack_code (rs ! j) \<noteq> JStr c"
  shows "upsert_dataset c x y db =
           (db\<lparr>racks := Some (rs[i := set_coords x y (rs ! i)])\<rparr>, set_coords x y (rs ! i))"
  by (simp add: upsert_dataset_def assms(1) upsert_found [OF assms(2,3,4)])

lemma upsert_dataset_new:
  assumes "or_empty (racks db) = rs" and "\<forall>r \<in> set rs. rack_code r \<noteq> JStr c"
  shows "upsert_dataset c x y db =
           (db\<lparr>racks := Some (rs @ [new_rack c x y])\<rparr>, new_rack c x y)"
  by (simp add: upsert_dataset_def assms(1) upsert_new [OF assms(2)])

subsection \<open>What JSON.stringify keeps\<close>

lemma json_rack_set_coords:
  "json_rack r = r \<Longrightarrow> isFinite x \<Longrightarrow> isFinite y \<Longrightarrow>
   json_rack (set_coords x y r) = set_coords x y r"
  by (cases r) (simp add: json_rack_def set_coords_def)

lemma json_rack_new_rack:
  "isFinite x \<Longrightarrow> isFinite y \<Longrightarrow> json_rack (new_rack c x y) = new_rack c x y"
  by (simp add: json_rack_def new_rack_def)

lemma map_fixed: "map f xs = xs \<Longrightarrow> x \<in> set xs \<Longrightarrow> f x = x"
  by (induction xs) auto

lemma json_dataset_stable_racks:
  assumes "json_dataset db = db" and "r \<in> set (or_empty (racks db))"
  shows "json_rack r = r"
proof (cases "racks db")
  case None
  with assms(2) show ?thesis by (simp add: or_empty_def)
next
  case (Some rs)
  from assms(1) have "racks (json_dataset db) = racks db" by simp
  with Some have "map json_rack rs = rs" by (simp add: json_dataset_def)
  moreover from assms(2) Some have "r \<in> set rs" by (simp add: or_empty_def)
  ultimately show ?thesis by (rule map_fixed)
qed

lemma json_dataset_racks_update:
  assumes "json_dataset db = db" and "map json_rack rs = rs"
  shows "json_dataset (db\<lparr>racks := Some rs\<rparr>) = db\<lparr>racks := Some rs\<rparr>"
proof -
  have "json_dataset (db\<lparr>racks := Some rs\<rparr>) = (json_dataset db)\<lparr>racks := Some (map json_rack rs)\<rparr>"
    by (simp add: json_dataset_def)
  with assms show ?thesis by simp
qed

lemma map_fixedI: "(\<And>x. x \<in> set xs \<Longrightarrow> f x = x) \<Longrightarrow> map f xs = xs"
  by (induction xs) auto

subsection \<open>Validation of the request body\<close>

text \<open>
  The JSON body \<^verbatim>\<open>{"code": "A01", "x": 1e999, "y": 1}\<close> on the example world: \<^verbatim>\<open>JSON.parse\<close>
  reads \<^verbatim>\<open>1e999\<close> as \<^verbatim>\<open>Infinity\<close>, so \<^verbatim>\<open>x\<close> is no finite number. Yet the request is
  answered with status 200, the disk is loaded and saved, and the rack on disk has
  changed (its \<^verbatim>\<open>x\<close> is written as \<^verbatim>\<open>null\<close>). The guard of the handler is
  \<^verbatim>\<open>Number.isNaN\<close>, which infinity passes.
\<close>

theorem upsert_accepts_infinity:
  "\<forall>num.
   \<not> isFinite (ToNumber num (body_x infinity_body))
    \<and> post_admin_rack ascii_upper num infinity_body spec_world =
        (Inr \<lparr>status = 200,
              payload = RackSaved (lit ''Rack A01 berhasil disimpan'')
                \<lparr>rack_id = JStr (lit ''R-A01''), rack_code = JStr (lit ''A01''),
                 rack_x = JNum PosInfinity, rack_y = JNum (Finite 1)\<rparr>\<rparr>,
         \<lparr>disk = Some (spec_db\<lparr>racks :=
                   Some [\<lparr>rack_id = JStr (lit ''R-A01''), rack_code = JStr (lit ''A01''),
                          rack_x = JNull, rack_y = JNum (Finite 1)\<rparr>]\<rparr>),
          writable = True, trace = [Load, Save]\<rparr>)"
  by (intro allI) code_simp

text \<open>
  C1, as the handler has it. For a code that is absent, falsy or a string, with \<open>c\<close> its
  trimmed upper-cased text (whatever the case mapping and the conversion of strings to
  numbers): the request is answered with status 400 and the world handed
  back untouched (no load, no save) exactly when \<open>c\<close> is empty or \<^verbatim>\<open>Number(x)\<close> is \<^verbatim>\<open>NaN\<close>
  or \<^verbatim>\<open>Number(y)\<close> is \<^verbatim>\<open>NaN\<close>. Otherwise validation passes: the next thing recorded in the
  trace is the load, and the status is 200 or 500.
\<close>

theorem upsert_validation:
  assumes "normalize_code upper (body_code b) = Inr c"
  shows "(post_admin_rack upper num b w =
            (Inr \<lparr>status = 400,
                  payload = Failed (lit ''Data tidak valid. Pastikan code, x, y ada.'')\<rparr>, w))
         = (c = [] \<or> isNaN (ToNumber num (body_x b)) \<or> isNaN (ToNumber num (body_y b)))
       \<and> (c \<noteq> [] \<and> \<not> isNaN (ToNumber num (body_x b)) \<and> \<not> isNaN (ToNumber num (body_y b))
           \<longrightarrow> (\<exists>r w'. post_admin_rack upper num b w = (Inr r, w')
                  \<and> (status r = 200 \<or> status r = 500)
                  \<and> take (Suc (length (trace w))) (trace w') = trace w @ [Load]))"
proof (cases "invalid_input c (ToNumber num (body_x b)) (ToNumber num (body_y b))")
  case True
  from post_admin_rack_invalid [OF assms True] True show ?thesis
    by (simp add: invalid_input_def)
next
  case False
  have "\<exists>r w'. post_admin_rack upper num b w = (Inr r, w')
          \<and> (status r = 200 \<or> status r = 500)
          \<and> take (Suc (length (trace w))) (trace w') = trace w @ [Load]"
  proof (cases "disk w")
    case None
    from post_admin_rack_unreadable [OF assms False None] show ?thesis by simp
  next
    case (Some db)
    show ?thesis
    proof (cases "writable w")
      case True
      from post_admin_rack_saved [OF assms False Some True] show ?thesis by simp
    next
      case nw: False
      from post_admin_rack_write_failed [OF assms False Some nw] show ?thesis by simp
    qed
  qed
  then obtain r w' where p: "post_admin_rack upper num b w = (Inr r, w')"
    and s: "status r = 200 \<or> status r = 500"
    and t: "take (Suc (length (trace w))) (trace w') = trace w @ [Load]" by blast
  from p s have "post_admin_rack upper num b w \<noteq>
      (Inr \<lparr>status = 400,
            payload = Failed (lit ''Data tidak valid. Pastikan code, x, y ada.'')\<rparr>, w)"
    by auto
  with False p s t show ?thesis by (simp add: invalid_input_def)
qed

theorem upsert_validation_witness:
  "\<forall>num.
   normalize_code ascii_upper (body_code missing_y_body) = Inr (lit ''B02'')
    \<and> isNaN (ToNumber num (body_y missing_y_body))
    \<and> post_admin_rack ascii_upper num missing_y_body spec_world =
         (Inr \<lparr>status = 400,
               payload = Failed (lit ''Data tidak valid. Pastikan code, x, y ada.'')\<rparr>, spec_world)
    \<and> normalize_code ascii_upper (body_code b02_body) = Inr (lit ''B02'')
    \<and> (\<exists>r w'. post_admin_rack ascii_upper num b02_body spec_world = (Inr r, w')
           \<and> (status r = 200 \<or> status r = 500)
           \<and> take (Suc (length (trace spec_world))) (trace w') = trace spec_world @ [Load])"
  (is "\<forall>num. ?B num")
proof
  fix num
  have h: "normalize_code ascii_upper (body_code missing_y_body) = Inr (lit ''B02'')" by code_simp
  have n: "isNaN (ToNumber num (body_y missing_y_body))" by code_simp
  have h': "normalize_code ascii_upper (body_code b02_body) = Inr (lit ''B02'')" by code_simp
  have n': "\<not> isNaN (ToNumber num (body_x b02_body))" "\<not> isNaN (ToNumber num (body_y b02_body))"
    by (simp_all add: b02_body_def isNaN_def)
  have a: "post_admin_rack ascii_upper num missing_y_body spec_world =
        (Inr \<lparr>status = 400,
              payload = Failed (lit ''Data tidak valid. Pastikan code, x, y ada.'')\<rparr>, spec_world)"
    using upsert_validation [OF h, where w = spec_world and num = num] n by simp
  have b: "\<exists>r w'. post_admin_rack ascii_upper num b02_body spec_world = (Inr r, w')
          \<and> (status r = 200 \<or> status r = 500)
          \<and> take (Suc (length (trace spec_world))) (trace w') = trace spec_world @ [Load]"
    using upsert_validation [OF h', where w = spec_world and num = num] n'
    by (simp add: lit_def)
  from h n a h' b show "?B num" by blast
qed

subsection \<open>Creating a rack\<close>

text \<open>
  C5. When the request is valid and no rack of the dataset has the normalized code
  \<open>c\<close>, the upsert builds the rack with id \<^verbatim>\<open>"R-" + c\<close>, code \<open>c\<close> and the given \<open>x\<close> and \<open>y\<close>,
  appends it to the racks and changes nothing else of the dataset (the existing racks,
  the items, company and warehouse stay); the handler answers 200 with that rack and
  saves that dataset. What is saved is the dataset itself when it holds finite numbers
  only and \<open>x\<close> and \<open>y\<close> are finite.
\<close>

theorem upsert_creates_rack:
  assumes "disk w = Some db" and "writable w"
    and "normalize_code upper (body_code b) = Inr c" and "c \<noteq> []"
    and "ToNumber num (body_x b) = x" and "ToNumber num (body_y b) = y"
    and "\<not> isNaN x" and "\<not> isNaN y"
    and "or_empty (racks db) = rs"
    and "\<forall>r \<in> set rs. rack_code r \<noteq> JStr c"
  shows "upsert_dataset c x y db =
           (db\<lparr>racks := Some (rs @ [\<lparr>rack_id = JStr ((lit ''R-'') @ c), rack_code = JStr c,
                                        rack_x = JNum x, rack_y = JNum y\<rparr>])\<rparr>,
            \<lparr>rack_id = JStr ((lit ''R-'') @ c), rack_code = JStr c,
             rack_x = JNum x, rack_y = JNum y\<rparr>)
       \<and> post_admin_rack upper num b w =
           (Inr \<lparr>status = 200,
                 payload = RackSaved ((lit ''Rack '') @ c @ (lit '' berhasil disimpan''))
                   \<lparr>rack_id = JStr ((lit ''R-'') @ c), rack_code = JStr c,
                    rack_x = JNum x, rack_y = JNum y\<rparr>\<rparr>,
            w\<lparr>disk := Some (json_dataset (fst (upsert_dataset c x y db))),
              trace := trace w @ [Load, Save]\<rparr>)
       \<and> (json_dataset db = db \<and> isFinite x \<and> isFinite y \<longrightarrow>
            json_dataset (fst (upsert_dataset c x y db)) = fst (upsert_dataset c x y db))"
proof -
  have v: "\<not> invalid_input c (ToNumber num (body_x b)) (ToNumber num (body_y b))"
    using assms(4-8) by (simp add: invalid_input_def)
  have u: "upsert_dataset c x y db = (db\<lparr>racks := Some (rs @ [new_rack c x y])\<rparr>, new_rack c x y)"
    by (rule upsert_dataset_new [OF assms(9,10)])
  have p: "post_admin_rack upper num b w =
      (Inr \<lparr>status = 200,
            payload = RackSaved ((lit ''Rack '') @ c @ (lit '' berhasil disimpan''))
                        (snd (upsert_dataset c x y db))\<rparr>,
       w\<lparr>disk := Some (json_dataset (fst (upsert_dataset c x y db))),
         trace := trace w @ [Load, Save]\<rparr>)"
    using post_admin_rack_saved [OF assms(3) v assms(1,2)] assms(5,6) by simp
  have s: "json_dataset (fst (upsert_dataset c x y db)) = fst (upsert_dataset c x y db)"
    if st: "json_dataset db = db" and fx: "isFinite x" and fy: "isFinite y"
  proof -
    have "map json_rack (rs @ [new_rack c x y]) = rs @ [new_rack c x y]"
      using json_dataset_stable_racks [OF st] assms(9) json_rack_new_rack [OF fx fy]
      by (simp add: map_fixedI)
    from json_dataset_racks_update [OF st this] u show ?thesis by simp
  qed
  from u p s show ?thesis by (simp add: new_rack_def)
qed

theorem upsert_creates_rack_witness:
  "\<forall>num.
   post_admin_rack ascii_upper num b02_body spec_world =
      (Inr \<lparr>status = 200,
            payload = RackSaved (lit ''Rack B02 berhasil disimpan'')
              \<lparr>rack_id = JStr (lit ''R-B02''), rack_code = JStr (lit ''B02''),
               rack_x = JNum (Finite 5), rack_y = JNum (Finite 5)\<rparr>\<rparr>,
       \<lparr>disk = Some (spec_db\<lparr>racks :=
           Some [\<lparr>rack_id = JStr (lit ''R-A01''), rack_code = JStr (lit ''A01''),
                  rack_x = JNum (Finite 10), rack_y = JNum (Finite 20)\<rparr>,
                 \<lparr>rack_id = JStr (lit ''R-B02''), rack_code = JStr (lit ''B02''),
                  rack_x = JNum (Finite 5), rack_y = JNum (Finite 5)\<rparr>]\<rparr>),
        writable = True, trace = [Load, Save]\<rparr>)"
  (is "\<forall>num. ?B num")
proof
  fix num
  let ?rs = "[\<lparr>rack_id = JStr (lit ''R-A01''), rack_code = JStr (lit ''A01''),
                 rack_x = JNum (Finite 10), rack_y = JNum (Finite 20)\<rparr>]"
  have h1: "disk spec_world = Some spec_db" by (simp add: spec_world_def)
  have h2: "writable spec_world" by (simp add: spec_world_def)
  have h3: "normalize_code ascii_upper (body_code b02_body) = Inr (lit ''B02'')" by code_simp
  have h4: "(lit ''B02'') \<noteq> []" by (simp add: lit_def)
  have h5: "ToNumber num (body_x b02_body) = Finite 5" by (simp add: b02_body_def)
  have h6: "ToNumber num (body_y b02_body) = Finite 5" by (simp add: b02_body_def)
  have h7: "\<not> isNaN (Finite 5)" by (simp add: isNaN_def)
  have h8: "or_empty (racks spec_db) = ?rs" by (simp add: spec_db_def or_empty_def)
  have h9: "\<forall>r \<in> set ?rs. rack_code r \<noteq> JStr (lit ''B02'')" by (simp add: lit_def)
  have st: "json_dataset spec_db = spec_db" by code_simp
  have fin: "isFinite (Finite 5)" by (simp add: isFinite_def)
  note t = upsert_creates_rack [OF h1 h2 h3 h4 h5 h6 h7 h7 h8 h9]
  from t st fin have "json_dataset (fst (upsert_dataset (lit ''B02'') (Finite 5) (Finite 5) spec_db)) =
      fst (upsert_dataset (lit ''B02'') (Finite 5) (Finite 5) spec_db)" by blast
  with t show "?B num" by (simp add: spec_world_def lit_def)
qed

subsection \<open>Updating a rack\<close>

text \<open>
  A rack stored with the code \<^verbatim>\<open>"a01"\<close>, and a request with code \<^verbatim>\<open>"a01"\<close>: the normalized
  code \<^verbatim>\<open>"A01"\<close> is the stored code upper-cased, but \<^verbatim>\<open>r.code === code\<close> compares the stored
  code as it is. The rack is not found, and a second rack is appended.
\<close>

theorem upsert_lowercase_stored_code:
  "\<forall>num.
   toUpperCase ascii_upper (lit ''a01'') = (lit ''A01'')
    \<and> normalize_code ascii_upper (body_code a01_body) = Inr (lit ''A01'')
    \<and> post_admin_rack ascii_upper num a01_body \<lparr>disk = Some lowercase_db, writable = True, trace = []\<rparr> =
        (Inr \<lparr>status = 200,
              payload = RackSaved (lit ''Rack A01 berhasil disimpan'')
                \<lparr>rack_id = JStr (lit ''R-A01''), rack_code = JStr (lit ''A01''),
                 rack_x = JNum (Finite 99), rack_y = JNum (Finite 5)\<rparr>\<rparr>,
         \<lparr>disk = Some (spec_db\<lparr>racks :=
             Some [\<lparr>rack_id = JStr (lit ''R-a01''), rack_code = JStr (lit ''a01''),
                    rack_x = JNum (Finite 10), rack_y = JNum (Finite 20)\<rparr>,
                   \<lparr>rack_id = JStr (lit ''R-A01''), rack_code = JStr (lit ''A01''),
                    rack_x = JNum (Finite 99), rack_y = JNum (Finite 5)\<rparr>]\<rparr>),
          writable = True, trace = [Load, Save]\<rparr>)"
  by (intro allI) code_simp

text \<open>
  C2, as the handler has it. When the request is valid and \<open>i\<close> is the first position
  whose rack has a stored code equal to the normalized code \<open>c\<close>, the upsert sets \<open>x\<close> and
  \<open>y\<close> of that rack where it stands: the racks keep their number, the rack keeps its id
  and code, every other rack and the rest of the dataset stay, and the handler answers
  200 with the updated rack and saves that dataset.
\<close>

theorem upsert_updates_rack:
  assumes "disk w = Some db" and "writable w"
    and "normalize_code upper (body_code b) = Inr c" and "c \<noteq> []"
    and "ToNumber num (body_x b) = x" and "ToNumber num (body_y b) = y"
    and "\<not> isNaN x" and "\<not> isNaN y"
    and "or_empty (racks db) = rs"
    and "i < length rs" and "rack_code (rs ! i) = JStr c"
    and "\<forall>j<i. rack_code (rs ! j) \<noteq> JStr c"
  shows "upsert_dataset c x y db =
           (db\<lparr>racks := Some (rs[i := (rs ! i)\<lparr>rack_x := JNum x, rack_y := JNum y\<rparr>])\<rparr>,
            (rs ! i)\<lparr>rack_x := JNum x, rack_y := JNum y\<rparr>)
       \<and> length (rs[i := (rs ! i)\<lparr>rack_x := JNum x, rack_y := JNum y\<rparr>]) = length rs
       \<and> rack_id ((rs ! i)\<lparr>rack_x := JNum x, rack_y := JNum y\<rparr>) = rack_id (rs ! i)
       \<and> rack_code ((rs ! i)\<lparr>rack_x := JNum x, rack_y := JNum y\<rparr>) = rack_code (rs ! i)
       \<and> post_admin_rack upper num b w =
           (Inr \<lparr>status = 200,
                 payload = RackSaved ((lit ''Rack '') @ c @ (lit '' berhasil disimpan''))
                   ((rs ! i)\<lparr>rack_x := JNum x, rack_y := JNum y\<rparr>)\<rparr>,
            w\<lparr>disk := Some (json_dataset (fst (upsert_dataset c x y db))),
              trace := trace w @ [Load, Save]\<rparr>)
       \<and> (json_dataset db = db \<and> isFinite x \<and> isFinite y \<longrightarrow>
            json_dataset (fst (upsert_dataset c x y db)) = fst (upsert_dataset c x y db))"
proof -
  let ?r = "(rs ! i)\<lparr>rack_x := JNum x, rack_y := JNum y\<rparr>"
  have v: "\<not> invalid_input c (ToNumber num (body_x b)) (ToNumber num (body_y b))"
    using assms(4-8) by (simp add: invalid_input_def)
  have sc: "set_coords x y (rs ! i) = ?r" by (simp add: set_coords_def)
  have u: "upsert_dataset c x y db = (db\<lparr>racks := Some (rs[i := ?r])\<rparr>, ?r)"
    using upsert_dataset_found [OF assms(9,10,11,12)] by (simp add: sc)
  have p: "post_admin_rack upper num b w =
      (Inr \<lparr>status = 200,
            payload = RackSaved ((lit ''Rack '') @ c @ (lit '' berhasil disimpan''))
                        (snd (upsert_dataset c x y db))\<rparr>,
       w\<lparr>disk := Some (json_dataset (fst (upsert_dataset c x y db))),
         trace := trace w @ [Load, Save]\<rparr>)"
    using post_admin_rack_saved [OF assms(3) v assms(1,2)] assms(5,6) by simp
  have s: "json_dataset (fst (upsert_dataset c x y db)) = fst (upsert_dataset c x y db)"
    if st: "json_dataset db = db" and fx: "isFinite x" and fy: "isFinite y"
  proof -
    have old: "\<And>r. r \<in> set rs \<Longrightarrow> json_rack r = r"
      using json_dataset_stable_racks [OF st] assms(9) by simp
    have "rs ! i \<in> set rs" using assms(10) by simp
    then have "json_rack (rs ! i) = rs ! i" by (rule old)
    then have "json_rack (set_coords x y (rs ! i)) = set_coords x y (rs ! i)"
      using fx fy by (rule json_rack_set_coords)
    then have "json_rack ?r = ?r" by (simp only: sc)
    with old have "\<And>r. r \<in> set (rs[i := ?r]) \<Longrightarrow> json_rack r = r"
      by (auto dest!: set_update_subset_insert [THEN subsetD])
    then have "map json_rack (rs[i := ?r]) = rs[i := ?r]" by (rule map_fixedI)
    from json_dataset_racks_update [OF st this] u show ?thesis by simp
  qed
  from u p s show ?thesis by simp
qed

theorem upsert_updates_rack_witness:
  "\<forall>num.
   post_admin_rack ascii_upper num a01_body spec_world =
      (Inr \<lparr>status = 200,
            payload = RackSaved (lit ''Rack A01 berhasil disimpan'')
              \<lparr>rack_id = JStr (lit ''R-A01''), rack_code = JStr (lit ''A01''),
               rack_x = JNum (Finite 99), rack_y = JNum (Finite 5)\<rparr>\<rparr>,
       \<lparr>disk = Some (spec_db\<lparr>racks :=
           Some [\<lparr>rack_id = JStr (lit ''R-A01''), rack_code = JStr (lit ''A01''),
                  rack_x = JNum (Finite 99), rack_y = JNum (Finite 5)\<rparr>]\<rparr>),
        writable = True, trace = [Load, Save]\<rparr>)"
  (is "\<forall>num. ?B num")
proof
  fix num
  let ?rs = "[\<lparr>rack_id = JStr (lit ''R-A01''), rack_code = JStr (lit ''A01''),
                 rack_x = JNum (Finite 10), rack_y = JNum (Finite 20)\<rparr>]"
  have h1: "disk spec_world = Some spec_db" by (simp add: spec_world_def)
  have h2: "writable spec_world" by (simp add: spec_world_def)
  have h3: "normalize_code ascii_upper (body_code a01_body) = Inr (lit ''A01'')" by code_simp
  have h4: "(lit ''A01'') \<noteq> []" by (simp add: lit_def)
  have h5: "ToNumber num (body_x a01_body) = Finite 99" by (simp add: a01_body_def)
  have h6: "ToNumber num (body_y a01_body) = Finite 5" by (simp add: a01_body_def)
  have h7: "\<not> isNaN (Finite 99)" by (simp add: isNaN_def)
  have h8: "\<not> isNaN (Finite 5)" by (simp add: isNaN_def)
  have h9: "or_empty (racks spec_db) = ?rs" by (simp add: spec_db_def or_empty_def)
  have h10: "0 < length ?rs" by simp
  have h11: "rack_code (?rs ! 0) = JStr (lit ''A01'')" by simp
  have h12: "\<forall>j<0. rack_code (?rs ! j) \<noteq> JStr (lit ''A01'')" by simp
  have st: "json_dataset spec_db = spec_db" by code_simp
  have fin: "isFinite (Finite 99)" "isFinite (Finite 5)" by (simp_all add: isFinite_def)
  note t = upsert_updates_rack [OF h1 h2 h3 h4 h5 h6 h7 h8 h9 h10 h11 h12]
  from t st fin have "json_dataset (fst (upsert_dataset (lit ''A01'') (Finite 99) (Finite 5) spec_db)) =
      fst (upsert_dataset (lit ''A01'') (Finite 99) (Finite 5) spec_db)" by blast
  with t show "?B num" by (simp add: spec_world_def lit_def)
qed

subsection \<open>Find-or-create on the list of racks\<close>

lemma has_code_set_coords: "has_code c (set_coords x y r) = has_code c r"
  by (simp add: has_code_iff set_coords_def)

lemma set_coords_idem: "set_coords x y (set_coords x y r) = set_coords x y r"
  by (simp add: set_coords_def)

lemma set_coords_new_rack: "set_coords x y (new_rack c x y) = new_rack c x y"
  by (simp add: set_coords_def new_rack_def)

lemma has_code_new_rack: "has_code c (new_rack c x y)"
  by (simp add: has_code_iff new_rack_def)

lemma json_rack_set_coords_json:
  "json_rack (set_coords x y (json_rack r)) = json_rack (set_coords x y r)"
  by (simp add: json_rack_def set_coords_def json_leaf_idem)

lemma json_item_idem: "json_item (json_item it) = json_item it"
  by (simp add: json_item_def json_leaf_idem)

lemma find_append_none: "List.find P xs = None \<Longrightarrow> List.find P (xs @ ys) = List.find P ys"
  by (induction xs) (auto split: if_splits)

lemma find_mutate_first:
  "(\<And>a. P (f a) = P a) \<Longrightarrow> List.find P (mutate_first P f xs) = map_option f (List.find P xs)"
  by (induction xs) auto

lemma filter_mutate_first:
  "(\<And>a. P (f a) = P a) \<Longrightarrow>
   filter P (mutate_first P f xs) = (case filter P xs of [] \<Rightarrow> [] | a # as \<Rightarrow> f a # as)"
  by (induction xs) auto

lemma find_map_json: "List.find (has_code c) (map json_rack rs) = map_option json_rack (List.find (has_code c) rs)"
  by (induction rs) (auto simp: has_code_json_rack)

lemma filter_map_json:
  "filter (has_code c) (map json_rack rs) = map json_rack (filter (has_code c) rs)"
  by (induction rs) (auto simp: has_code_json_rack)






subsection \<open>Uniqueness of rack codes\<close>







subsection \<open>Upserting twice\<close>

text \<open>
  The dataset with two racks of code \<^verbatim>\<open>"A01"\<close> again, and the same upsert of \<^verbatim>\<open>"a01"\<close> to
  (99, 5) made twice: the first rack of the code is updated, the second keeps its place
  and its coordinates, and the dataset ends with two racks of that code.
\<close>

theorem upsert_twice_with_duplicates:
  "\<forall>num.
   map_option (\<lambda>d. filter (\<lambda>r. rack_code r = JStr (lit ''A01'')) (or_empty (racks d)))
      (disk (snd (post_admin_rack ascii_upper num a01_body
                    (snd (post_admin_rack ascii_upper num a01_body
                            \<lparr>disk = Some duplicate_db, writable = True, trace = []\<rparr>))))) =
      Some [\<lparr>rack_id = JStr (lit ''R-A01''), rack_code = JStr (lit ''A01''),
              rack_x = JNum (Finite 99), rack_y = JNum (Finite 5)\<rparr>,
            \<lparr>rack_id = JStr (lit ''R-A01b''), rack_code = JStr (lit ''A01''),
              rack_x = JNum (Finite 30), rack_y = JNum (Finite 40)\<rparr>]"
  by (intro allI) code_simp

lemma resave_fixed:
  assumes "\<And>r. List.find (has_code c) rs = Some r \<Longrightarrow> set_coords x y r = r"
  shows "map json_rack (mutate_first (has_code c) (set_coords x y) (map json_rack rs)) =
         map json_rack rs"
  using assms
proof (induction rs)
  case Nil
  then show ?case by simp
next
  case (Cons a rs)
  show ?case
  proof (cases "has_code c a")
    case True
    with Cons.prems have "set_coords x y a = a" by simp
    then have "json_rack (set_coords x y (json_rack a)) = json_rack a"
      by (simp add: json_rack_set_coords_json)
    with True show ?thesis by (simp add: has_code_json_rack json_rack_idem)
  next
    case False
    with Cons.prems have "\<And>r. List.find (has_code c) rs = Some r \<Longrightarrow> set_coords x y r = r"
      by simp
    from Cons.IH [OF this] False show ?thesis by (simp add: has_code_json_rack json_rack_idem)
  qed
qed

text \<open>The racks after one upsert: the first rack of the code exists and already has the coordinates.\<close>

lemma upsert_first_fixed:
  "\<exists>r. List.find (has_code c) (fst (upsert c x y rs)) = Some r \<and> set_coords x y r = r"
proof (cases "List.find (has_code c) rs")
  case None
  then show ?thesis
    by (simp add: upsert_def Let_def find_append_none has_code_new_rack set_coords_new_rack)
next
  case (Some r)
  then show ?thesis
    by (simp add: upsert_def find_mutate_first has_code_set_coords set_coords_idem)
qed

lemma upsert_again:
  "map json_rack (fst (upsert c x y (map json_rack (fst (upsert c x y rs))))) =
   map json_rack (fst (upsert c x y rs))"
proof -
  let ?rs1 = "fst (upsert c x y rs)"
  from upsert_first_fixed obtain r where
    r: "List.find (has_code c) ?rs1 = Some r" "set_coords x y r = r" by blast
  then have "fst (upsert c x y (map json_rack ?rs1)) =
      mutate_first (has_code c) (set_coords x y) (map json_rack ?rs1)"
    by (simp add: upsert_def [of c x y "map json_rack ?rs1"] find_map_json)
  moreover have "map json_rack (mutate_first (has_code c) (set_coords x y) (map json_rack ?rs1)) =
      map json_rack ?rs1"
    using r by (intro resave_fixed) simp
  ultimately show ?thesis by simp
qed

lemma upsert_filter:
  assumes "length (filter (has_code c) rs) \<le> 1"
  shows "filter (has_code c) (fst (upsert c x y rs)) =
     (case List.find (has_code c) rs of None \<Rightarrow> [new_rack c x y] | Some r \<Rightarrow> [set_coords x y r])"
proof (cases "List.find (has_code c) rs")
  case None
  then have "filter (has_code c) rs = []"
    by (auto simp: find_None_iff filter_empty_conv)
  with None show ?thesis by (simp add: upsert_def Let_def has_code_new_rack)
next
  case (Some r)
  then have "List.find (has_code c) rs = Some r" .
  then have hd: "filter (has_code c) rs \<noteq> []" "hd (filter (has_code c) rs) = r"
    by (induction rs) (auto split: if_splits)
  with assms have "filter (has_code c) rs = [r]"
    by (cases "filter (has_code c) rs") auto
  with Some show ?thesis
    by (simp add: upsert_def filter_mutate_first has_code_set_coords)
qed

lemma upsert_dataset_fst:
  "fst (upsert_dataset c x y db) = db\<lparr>racks := Some (fst (upsert c x y (or_empty (racks db))))\<rparr>"
  by (simp add: upsert_dataset_def split: prod.splits)

lemma json_dataset_resave:
  "json_dataset (fst (upsert_dataset c x y (json_dataset (fst (upsert_dataset c x y db))))) =
   json_dataset (fst (upsert_dataset c x y db))"
proof -
  let ?rs1 = "fst (upsert c x y (or_empty (racks db)))"
  have i: "map_option (map json_item) (map_option (map json_item) (items db)) =
           map_option (map json_item) (items db)"
    by (cases "items db") (simp_all add: json_item_idem)
  have "or_empty (racks (json_dataset (db\<lparr>racks := Some ?rs1\<rparr>))) = map json_rack ?rs1"
    by (simp add: json_dataset_def or_empty_def)
  then show ?thesis
    by (simp add: upsert_dataset_fst json_dataset_def upsert_again json_leaf_idem i)
qed

lemma find_has_code: "List.find (has_code c) rs = Some r \<Longrightarrow> rack_code r = JStr c"
  by (auto simp: find_Some_iff has_code_iff)

text \<open>
  C8, as the handler has it. On a dataset with at most one rack of the code, two
  successful upserts in sequence with the same code and the same finite \<open>x\<close> and \<open>y\<close> leave
  exactly one rack of that code on disk, with those coordinates; and the second upsert
  leaves on disk the very dataset the first one left.
\<close>

theorem upsert_twice:
  assumes "disk w = Some db" and "writable w"
    and "normalize_code upper (body_code b) = Inr c" and "c \<noteq> []"
    and "ToNumber num (body_x b) = Finite x" and "ToNumber num (body_y b) = Finite y"
    and "length (filter (has_code c) (or_empty (racks db))) \<le> 1"
  shows "\<exists>d r. disk (snd (post_admin_rack upper num b w)) = Some d
           \<and> disk (snd (post_admin_rack upper num b (snd (post_admin_rack upper num b w)))) = Some d
           \<and> filter (has_code c) (or_empty (racks d)) = [r]
           \<and> rack_code r = JStr c
           \<and> rack_x r = JNum (Finite x) \<and> rack_y r = JNum (Finite y)"
proof -
  let ?d1 = "fst (upsert_dataset c (Finite x) (Finite y) db)"
  let ?w1 = "w\<lparr>disk := Some (json_dataset ?d1), trace := trace w @ [Load, Save]\<rparr>"
  let ?rs = "or_empty (racks db)"
  let ?rs1 = "fst (upsert c (Finite x) (Finite y) ?rs)"
  have v: "\<not> invalid_input c (ToNumber num (body_x b)) (ToNumber num (body_y b))"
    using assms(4-6) by (simp add: invalid_input_def isNaN_def)
  have p1: "snd (post_admin_rack upper num b w) = ?w1"
    using post_admin_rack_saved [OF assms(3) v assms(1,2)] assms(5,6) by simp
  have dw1: "disk ?w1 = Some (json_dataset ?d1)" and ww1: "writable ?w1"
    using assms(2) by simp_all
  have p2: "disk (snd (post_admin_rack upper num b ?w1)) =
      Some (json_dataset (fst (upsert_dataset c (Finite x) (Finite y) (json_dataset ?d1))))"
    using post_admin_rack_saved [OF assms(3) v dw1 ww1] assms(5,6) by simp
  have same: "disk (snd (post_admin_rack upper num b (snd (post_admin_rack upper num b w)))) = Some (json_dataset ?d1)"
    by (simp only: p1 p2 json_dataset_resave)
  have racks1: "or_empty (racks (json_dataset ?d1)) = map json_rack ?rs1"
    by (simp add: upsert_dataset_fst json_dataset_def or_empty_def)
  have fl: "filter (has_code c) (or_empty (racks (json_dataset ?d1))) =
      map json_rack (case List.find (has_code c) ?rs of
                       None \<Rightarrow> [new_rack c (Finite x) (Finite y)]
                     | Some r \<Rightarrow> [set_coords (Finite x) (Finite y) r])"
    by (simp only: racks1 filter_map_json upsert_filter [OF assms(7)])
  have "\<exists>r. filter (has_code c) (or_empty (racks (json_dataset ?d1))) = [r]
          \<and> rack_code r = JStr c
          \<and> rack_x r = JNum (Finite x) \<and> rack_y r = JNum (Finite y)"
  proof (cases "List.find (has_code c) ?rs")
    case None
    with fl show ?thesis
      by (simp add: json_rack_def new_rack_def isFinite_def)
  next
    case (Some r)
    from find_has_code [OF Some] fl Some show ?thesis
      by (simp add: json_rack_def set_coords_def isFinite_def)
  qed
  with p1 same show ?thesis by simp
qed

theorem upsert_twice_witness:
  "\<forall>num.
   \<exists>d r. disk (snd (post_admin_rack ascii_upper num a01_body spec_world)) = Some d
      \<and> disk (snd (post_admin_rack ascii_upper num a01_body (snd (post_admin_rack ascii_upper num a01_body spec_world)))) = Some d
      \<and> filter (has_code (lit ''A01'')) (or_empty (racks d)) = [r]
      \<and> rack_code r = JStr (lit ''A01'')
      \<and> rack_x r = JNum (Finite 99) \<and> rack_y r = JNum (Finite 5)"
  (is "\<forall>num. ?B num")
proof
  fix num
  have h1: "disk spec_world = Some spec_db" by (simp add: spec_world_def)
  have h2: "writable spec_world" by (simp add: spec_world_def)
  have h3: "normalize_code ascii_upper (body_code a01_body) = Inr (lit ''A01'')" by code_simp
  have h4: "(lit ''A01'') \<noteq> []" by (simp add: lit_def)
  have h5: "ToNumber num (body_x a01_body) = Finite 99" by (simp add: a01_body_def)
  have h6: "ToNumber num (body_y a01_body) = Finite 5" by (simp add: a01_body_def)
  have h7: "length (filter (has_code (lit ''A01'')) (or_empty (racks spec_db))) \<le> 1" by code_simp
  from upsert_twice [OF h1 h2 h3 h4 h5 h6 h7] show "?B num" .
qed

end
